theory Spec2Isabelle
  imports Main
begin

section \<open>Python strings\<close>

text \<open>
  A Python \<^verbatim>\<open>str\<close> is modelled as a \<^typ>\<open>string\<close>: each \<^typ>\<open>char\<close> stands for the
  code point of the same number, so the model covers the strings whose code points are
  below 256. \<open>is_space\<close> holds of the characters that \<^verbatim>\<open>str.strip()\<close> removes in that
  range: tab, line feed, vertical tab, form feed, carriage return, the separators
  0x1C to 0x1F, the space, NEL (0x85) and the no-break space (0xA0).
\<close>

definition is_space :: "char \<Rightarrow> bool" where
  "is_space c =
     (let n = (of_char c :: nat)
      in (9 \<le> n \<and> n \<le> 13) \<or> (28 \<le> n \<and> n \<le> 32) \<or> n = 133 \<or> n = 160)"

text \<open>\<^verbatim>\<open>s.strip()\<close>: leading and trailing whitespace removed.\<close>

definition strip :: "string \<Rightarrow> string" where
  "strip s = rev (dropWhile is_space (rev (dropWhile is_space s)))"

text \<open>\<^verbatim>\<open>s.startswith(p)\<close>, and \<^verbatim>\<open>s.startswith((p1, p2, ...))\<close> for a tuple of prefixes.\<close>

definition startswith :: "string \<Rightarrow> string \<Rightarrow> bool" where
  "startswith s p = (take (length p) s = p)"

definition startswith_any :: "string \<Rightarrow> string list \<Rightarrow> bool" where
  "startswith_any s ps = list_ex (startswith s) ps"

text \<open>A text between single quotes, as the f-strings of the source write \<^verbatim>\<open>'{x}'\<close>.\<close>

definition quoted :: "string \<Rightarrow> string" where
  "quoted x = [CHR 0x27] @ x @ [CHR 0x27]"

text \<open>\<^verbatim>\<open>sep.join(xs)\<close>.\<close>

fun join :: "string \<Rightarrow> string list \<Rightarrow> string" where
  "join sep [] = []"
| "join sep [x] = x"
| "join sep (x # y # ys) = x @ sep @ join sep (y # ys)"

text \<open>
  \<^verbatim>\<open>s.split("&&")\<close>: the string is cut at every occurrence of the separator, found from
  the left and without overlap, so \<^verbatim>\<open>"a&&&b"\<close> gives \<^verbatim>\<open>["a", "&b"]\<close>. The result is never
  the empty list; the last equation's \<open>[]\<close> case only makes the \<open>case\<close> total.
\<close>

fun split_amp_amp :: "string \<Rightarrow> string list" where
  "split_amp_amp [] = [[]]"
| "split_amp_amp [a] = [[a]]"
| "split_amp_amp (a # b # cs) =
     (if a = CHR ''&'' \<and> b = CHR ''&'' then [] # split_amp_amp cs
      else (case split_amp_amp (b # cs) of
              [] \<Rightarrow> [[a]]
            | w # ws \<Rightarrow> (a # w) # ws))"

text \<open>
  \<^verbatim>\<open>s.split("=", 1)\<close>: at most one cut, at the first \<^verbatim>\<open>=\<close>; a string without \<^verbatim>\<open>=\<close> comes
  back whole, as a list of one element.
\<close>

definition split_eq_1 :: "string \<Rightarrow> string list" where
  "split_eq_1 s =
     (case dropWhile (\<lambda>c. c \<noteq> CHR ''='') s of
        [] \<Rightarrow> [s]
      | _ # after \<Rightarrow> [takeWhile (\<lambda>c. c \<noteq> CHR ''='') s, after])"

section \<open>Python dictionaries\<close>

text \<open>
  \<^verbatim>\<open>environment_vars\<close> is a \<^verbatim>\<open>dict\<close>, and \<^verbatim>\<open>.items()\<close> walks it in insertion order, so it
  is an association list. \<^verbatim>\<open>d[k] = v\<close> overwrites the value of a key that is present, in
  its place, and appends a new key at the end.
\<close>

fun dict_set :: "'k \<Rightarrow> 'v \<Rightarrow> ('k \<times> 'v) list \<Rightarrow> ('k \<times> 'v) list" where
  "dict_set k v [] = [(k, v)]"
| "dict_set k v ((k', v') # kvs) =
     (if k' = k then (k', v) # kvs else (k', v') # dict_set k v kvs)"

section \<open>The remote executor and the clock\<close>

text \<open>
  The two calls of the SSM client that the session makes, and \<^verbatim>\<open>time.sleep\<close>, act on a
  world \<open>'w\<close> outside the program. A call either raises (\<open>Inl\<close>, with \<^verbatim>\<open>str(e)\<close> of the
  exception) or returns (\<open>Inr\<close>): \<open>send_command\<close> the \<^verbatim>\<open>CommandId\<close> of the response,
  \<open>get_command_invocation\<close> the two fields of the response that the session reads.
\<close>

datatype exn = Exception string

record invocation =
  Status :: string
  StandardOutputContent :: string

record 'w remote =
  send_command :: "string \<Rightarrow> 'w \<Rightarrow> (exn + string) \<times> 'w"
  get_command_invocation :: "string \<Rightarrow> 'w \<Rightarrow> (exn + invocation) \<times> 'w"
  sleep :: "nat \<Rightarrow> 'w \<Rightarrow> 'w"

text \<open>
  What the program did to the world, in order: every command sent and every status
  query, each with its outcome, and every sleep with its duration in seconds.
\<close>

datatype effect =
    Sent string "exn + string"
  | Queried string "exn + invocation"
  | Slept nat

section \<open>The session\<close>

text \<open>
  The three state fields of \<^verbatim>\<open>PersistentSSMSession\<close>, the world the client talks to, and
  the log of effects. (\<^verbatim>\<open>session_id\<close> is set to \<^verbatim>\<open>None\<close> and never used.)
\<close>

record 'w session =
  current_directory :: string
  environment_vars :: "(string \<times> string) list"
  command_history :: "string list"
  world :: 'w
  effects :: "effect list"

definition do_send :: "'w remote \<Rightarrow> string \<Rightarrow> 'w session \<Rightarrow> (exn + string) \<times> 'w session" where
  "do_send R c s =
     (case send_command R c (world s) of
        (r, w) \<Rightarrow> (r, s\<lparr>world := w, effects := effects s @ [Sent c r]\<rparr>))"

definition do_query :: "'w remote \<Rightarrow> string \<Rightarrow> 'w session \<Rightarrow> (exn + invocation) \<times> 'w session" where
  "do_query R command_id s =
     (case get_command_invocation R command_id (world s) of
        (r, w) \<Rightarrow> (r, s\<lparr>world := w, effects := effects s @ [Queried command_id r]\<rparr>))"

definition do_sleep :: "'w remote \<Rightarrow> nat \<Rightarrow> 'w session \<Rightarrow> 'w session" where
  "do_sleep R d s = s\<lparr>world := sleep R d (world s), effects := effects s @ [Slept d]\<rparr>"

subsection \<open>Waiting for a command\<close>

text \<open>
  \<^verbatim>\<open>_wait_for_command(command_id, max_retries=10, sleep_time=3)\<close>. The loop over
  \<^verbatim>\<open>range(max_retries)\<close> is a recursion over the list of attempt numbers. The \<^verbatim>\<open>try\<close> covers
  the query, so a query that raises goes to the handler, which sleeps \<^verbatim>\<open>sleep_time\<close>.
  Both parameters are natural numbers: a negative \<^verbatim>\<open>max_retries\<close> behaves as 0, and every
  call in the source leaves both at their defaults. The message printed before
  \<^verbatim>\<open>return False\<close> is not part of the model.
\<close>

definition terminal_statuses :: "string list" where
  "terminal_statuses = [''Success'', ''Failed'', ''Cancelled'', ''TimedOut'']"

fun wait_loop :: "'w remote \<Rightarrow> string \<Rightarrow> nat \<Rightarrow> nat list \<Rightarrow> 'w session \<Rightarrow> bool \<times> 'w session" where
  "wait_loop R command_id sleep_time [] s = (False, s)"
| "wait_loop R command_id sleep_time (attempt # rest) s =
     (case do_query R command_id s of
        (Inr output, s1) \<Rightarrow>
          if Status output \<in> set terminal_statuses then (True, s1)
          else wait_loop R command_id sleep_time rest
                 (do_sleep R (min (sleep_time * 2 ^ attempt) 15) s1)
      | (Inl e, s1) \<Rightarrow>
          wait_loop R command_id sleep_time rest (do_sleep R sleep_time s1))"

definition wait_for_command ::
    "'w remote \<Rightarrow> string \<Rightarrow> nat \<Rightarrow> nat \<Rightarrow> 'w session \<Rightarrow> bool \<times> 'w session" where
  "wait_for_command R command_id max_retries sleep_time s =
     wait_loop R command_id sleep_time [0..<max_retries] s"

subsection \<open>The three handlers\<close>

text \<open>
  A handler returns \<open>Inr\<close> of its result string, or \<open>Inl\<close> of the exception that leaves
  it. \<^verbatim>\<open>_handle_cd_command\<close> has no \<^verbatim>\<open>try\<close>: an exception of \<open>send_command\<close> or of
  \<open>get_command_invocation\<close> leaves the handler.
\<close>

definition cd_check_cmd :: "string \<Rightarrow> string \<Rightarrow> string" where
  "cd_check_cmd cwd dir_path =
     (if dir_path = [] then ''cd && pwd''
      else if startswith dir_path ''/'' then
        ''if [ -d '' @ quoted dir_path @ '' ]; then cd '' @ quoted dir_path
          @ '' && pwd; else echo 'Directory not found'; fi''
      else
        ''if [ -d '' @ quoted (cwd @ ''/'' @ dir_path) @ '' ] || [ -d '' @ quoted dir_path
          @ '' ]; then cd '' @ quoted cwd @ '' && cd '' @ quoted dir_path
          @ '' && pwd; else echo 'Directory not found'; fi'')"

definition handle_cd_command :: "'w remote \<Rightarrow> string \<Rightarrow> 'w session \<Rightarrow> (exn + string) \<times> 'w session" where
  "handle_cd_command R command s =
     (let dir_path = strip (drop 3 (strip command));
          check_cmd = cd_check_cmd (current_directory s) dir_path
      in case do_send R check_cmd s of
           (Inl e, s1) \<Rightarrow> (Inl e, s1)
         | (Inr command_id, s1) \<Rightarrow>
             (case wait_for_command R command_id 10 3 s1 of
                (_, s2) \<Rightarrow>
                  (case do_query R command_id s2 of
                     (Inl e, s3) \<Rightarrow> (Inl e, s3)
                   | (Inr output, s3) \<Rightarrow>
                       (let result = strip (StandardOutputContent output)
                        in if result \<noteq> ''Directory not found'' then
                             (Inr (''Changed to directory: '' @ result),
                              s3\<lparr>current_directory := result,
                                 command_history := command_history s3 @ [command]\<rparr>)
                           else (Inr ''Directory not found'', s3)))))"

text \<open>
  \<^verbatim>\<open>_handle_env_var_setting\<close>: the whole body is under \<^verbatim>\<open>try\<close>. Unpacking a split of one
  element into two names raises \<^verbatim>\<open>ValueError\<close>, which the handler catches like any other
  exception; nothing was assigned before it.
\<close>

definition handle_env_var_setting :: "'w remote \<Rightarrow> string \<Rightarrow> 'w session \<Rightarrow> (exn + string) \<times> 'w session" where
  "handle_env_var_setting R command s =
     (case split_eq_1 (strip command) of
        [var_name, var_value] \<Rightarrow>
          (let s0 = s\<lparr>environment_vars := dict_set var_name var_value (environment_vars s)\<rparr>;
               full_command = ''cd '' @ quoted (current_directory s0) @ '' && '' @ var_name @ ''=''
                 @ var_value @ '' && echo '' @ quoted (''Set '' @ var_name @ ''='' @ var_value)
           in case do_send R full_command s0 of
                (Inl (Exception msg), s1) \<Rightarrow>
                  (Inr (''Error setting environment variable: '' @ msg), s1)
              | (Inr command_id, s1) \<Rightarrow>
                  (case wait_for_command R command_id 10 3 s1 of
                     (_, s2) \<Rightarrow>
                       (Inr (''Set environment variable '' @ var_name @ ''='' @ var_value),
                        s2\<lparr>command_history := command_history s2 @ [command]\<rparr>)))
      | _ \<Rightarrow>
          (Inr (''Error setting environment variable: ''
                @ ''not enough values to unpack (expected 2, got 1)''), s))"

text \<open>\<^verbatim>\<open>_execute_normal_command\<close>: the dispatch and the fetch are under \<^verbatim>\<open>try\<close>.\<close>

definition env_prefix :: "(string \<times> string) list \<Rightarrow> string" where
  "env_prefix vars =
     (let env_vars = join '' '' (map (\<lambda>(k, v). k @ ''='' @ quoted v) vars)
      in if env_vars \<noteq> [] then env_vars @ '' '' else [])"

definition execute_normal_command :: "'w remote \<Rightarrow> string \<Rightarrow> 'w session \<Rightarrow> (exn + string) \<times> 'w session" where
  "execute_normal_command R command s =
     (let full_command = ''cd '' @ quoted (current_directory s) @ '' && ''
            @ env_prefix (environment_vars s) @ command
      in case do_send R full_command s of
           (Inl (Exception msg), s1) \<Rightarrow> (Inr (''Error executing command: '' @ msg), s1)
         | (Inr command_id, s1) \<Rightarrow>
             (case wait_for_command R command_id 10 3 s1 of
                (_, s2) \<Rightarrow>
                  (case do_query R command_id s2 of
                     (Inl (Exception msg), s3) \<Rightarrow>
                       (Inr (''Error executing command: '' @ msg), s3)
                   | (Inr output, s3) \<Rightarrow>
                       (Inr (StandardOutputContent output),
                        s3\<lparr>command_history := command_history s3 @ [command]\<rparr>))))"

subsection \<open>Compound commands\<close>

text \<open>
  The \<^verbatim>\<open>if\<close>/\<^verbatim>\<open>elif\<close>/\<^verbatim>\<open>else\<close> chain of \<^verbatim>\<open>execute_command\<close>: which handler an atomic
  command goes to.
\<close>

datatype kind = DirectoryChange | VariableAssignment | GeneralExecution

definition classify :: "string \<Rightarrow> kind" where
  "classify cmd =
     (if startswith cmd ''cd '' then DirectoryChange
      else if CHR ''='' \<in> set cmd
              \<and> \<not> startswith_any cmd [''export '', ''echo '', ''printf ''] then VariableAssignment
      else GeneralExecution)"

definition dispatch :: "'w remote \<Rightarrow> string \<Rightarrow> 'w session \<Rightarrow> (exn + string) \<times> 'w session" where
  "dispatch R cmd s =
     (case classify cmd of
        DirectoryChange \<Rightarrow> handle_cd_command R cmd s
      | VariableAssignment \<Rightarrow> handle_env_var_setting R cmd s
      | GeneralExecution \<Rightarrow> execute_normal_command R cmd s)"

text \<open>
  The \<^verbatim>\<open>for\<close> loop, with \<^verbatim>\<open>results\<close> as its accumulator. An exception that leaves a
  handler leaves the loop and \<^verbatim>\<open>execute_command\<close>.
\<close>

fun run_commands ::
    "'w remote \<Rightarrow> string list \<Rightarrow> string list \<Rightarrow> 'w session \<Rightarrow> (exn + string list) \<times> 'w session" where
  "run_commands R [] results s = (Inr results, s)"
| "run_commands R (cmd # cmds) results s =
     (case dispatch R cmd s of
        (Inl e, s1) \<Rightarrow> (Inl e, s1)
      | (Inr r, s1) \<Rightarrow> run_commands R cmds (results @ [r]) s1)"

definition execute_command :: "'w remote \<Rightarrow> string \<Rightarrow> 'w session \<Rightarrow> (exn + string) \<times> 'w session" where
  "execute_command R command s =
     (let commands = map strip (filter (\<lambda>cmd. strip cmd \<noteq> []) (split_amp_amp command))
      in case run_commands R commands [] s of
           (Inl e, s1) \<Rightarrow> (Inl e, s1)
         | (Inr results, s1) \<Rightarrow> (Inr (join ''\<newline>'' results), s1))"

subsection \<open>Reading the state\<close>

text \<open>
  \<^verbatim>\<open>get_state\<close> returns a dictionary of three entries. \<^verbatim>\<open>xs[-10:]\<close> is the last ten
  elements, or all of \<open>xs\<close> when it has fewer: the subtraction on \<^typ>\<open>nat\<close> stops at 0,
  as the slice's start does.
\<close>

record state_dict =
  state_current_directory :: string
  state_environment_variables :: "(string \<times> string) list"
  state_command_history :: "string list"

definition get_state :: "'w session \<Rightarrow> state_dict \<times> 'w session" where
  "get_state s =
     (\<lparr>state_current_directory = current_directory s,
       state_environment_variables = environment_vars s,
       state_command_history =
         (if command_history s \<noteq> []
          then drop (length (command_history s) - 10) (command_history s) else [])\<rparr>,
      s)"

section \<open>Notions of the specification\<close>

text \<open>
  The definitions of this section are not code of the program: they say, in the words
  of the specification, what the theorems below compare the program with.
\<close>

text \<open>A status query that ends the polling: it returned, with a terminal status.\<close>

definition is_terminal :: "exn + invocation \<Rightarrow> bool" where
  "is_terminal r =
     (case r of
        Inl e \<Rightarrow> False
      | Inr output \<Rightarrow>
          Status output = ''Success'' \<or> Status output = ''Failed''
          \<or> Status output = ''Cancelled'' \<or> Status output = ''TimedOut'')"

text \<open>
  The delay after a query that did not end the polling: the capped exponential backoff
  \<open>min (base * 2 ^ attempt) 15\<close> after a status that is not terminal, the flat base
  interval after a query that raised.
\<close>

definition delay_after :: "nat \<Rightarrow> nat \<Rightarrow> exn + invocation \<Rightarrow> nat" where
  "delay_after base attempt r =
     (case r of
        Inl e \<Rightarrow> base
      | Inr output \<Rightarrow> min (base * 2 ^ attempt) 15)"

text \<open>
  The effects of polling that observes the given outcomes, each paired with its attempt
  number: one query per outcome, followed by its delay unless the outcome is terminal.
\<close>

definition poll_effects :: "string \<Rightarrow> nat \<Rightarrow> (nat \<times> (exn + invocation)) list \<Rightarrow> effect list" where
  "poll_effects command_id base obs =
     concat (map (\<lambda>(attempt, r).
        if is_terminal r then [Queried command_id r]
        else [Queried command_id r, Slept (delay_after base attempt r)]) obs)"

text \<open>An input that consists only of whitespace and \<^verbatim>\<open>&&\<close> separators.\<close>

fun blank_input :: "string \<Rightarrow> bool" where
  "blank_input [] = True"
| "blank_input [a] = is_space a"
| "blank_input (a # b # cs) =
     (if a = CHR ''&'' \<and> b = CHR ''&'' then blank_input cs
      else is_space a \<and> blank_input (b # cs))"

text \<open>
  The atomic commands of a compound input: split at the separator, each segment
  trimmed, the empty ones dropped.
\<close>

definition atomic_commands :: "string \<Rightarrow> string list" where
  "atomic_commands command = filter (\<lambda>cmd. cmd \<noteq> []) (map strip (split_amp_amp command))"

text \<open>
  Sequential execution: the state in which each atomic command runs is the state the
  one before it left. \<open>outcomes\<close> lists what each command gives in its turn,
  \<open>state_after\<close> is the state after all of them.
\<close>

fun outcomes :: "'w remote \<Rightarrow> string list \<Rightarrow> 'w session \<Rightarrow> (exn + string) list" where
  "outcomes R [] s = []"
| "outcomes R (cmd # cmds) s = fst (dispatch R cmd s) # outcomes R cmds (snd (dispatch R cmd s))"

definition state_after :: "'w remote \<Rightarrow> string list \<Rightarrow> 'w session \<Rightarrow> 'w session" where
  "state_after R cmds s = foldl (\<lambda>s cmd. snd (dispatch R cmd s)) s cmds"

definition returned :: "exn + string \<Rightarrow> bool" where
  "returned r = (case r of Inl e \<Rightarrow> False | Inr x \<Rightarrow> True)"

section \<open>Sample sessions and remotes\<close>

text \<open>The state that \<^verbatim>\<open>__init__\<close> sets before it probes the home directory.\<close>

definition new_session :: "'w \<Rightarrow> 'w session" where
  "new_session w =
     \<lparr>current_directory = ''/home/ec2-user'', environment_vars = [], command_history = [],
      world = w, effects = []\<rparr>"

text \<open>A remote that cannot be reached: every call raises.\<close>

definition offline :: "unit remote" where
  "offline =
     \<lparr>send_command = (\<lambda>c w. (Inl (Exception ''connection refused''), w)),
      get_command_invocation = (\<lambda>i w. (Inl (Exception ''connection refused''), w)),
      sleep = (\<lambda>d w. w)\<rparr>"

text \<open>A remote on which every command has succeeded at once, with the given output.\<close>

definition answering :: "string \<Rightarrow> unit remote" where
  "answering out =
     \<lparr>send_command = (\<lambda>c w. (Inr ''id-1'', w)),
      get_command_invocation =
        (\<lambda>i w. (Inr \<lparr>Status = ''Success'', StandardOutputContent = out\<rparr>, w)),
      sleep = (\<lambda>d w. w)\<rparr>"

text \<open>
  A remote whose world is the list of the statuses that the coming queries will see;
  once the list is used up, every query sees \<^verbatim>\<open>InProgress\<close>.
\<close>

definition scripted :: "string list remote" where
  "scripted =
     \<lparr>send_command = (\<lambda>c w. (Inr ''id-1'', w)),
      get_command_invocation =
        (\<lambda>i w. case w of
           [] \<Rightarrow> (Inr \<lparr>Status = ''InProgress'', StandardOutputContent = []\<rparr>, [])
         | st # rest \<Rightarrow> (Inr \<lparr>Status = st, StandardOutputContent = []\<rparr>, rest)),
      sleep = (\<lambda>d w. w)\<rparr>"

text \<open>A session that has changed to \<^verbatim>\<open>/tmp\<close>.\<close>

definition tmp_session :: "unit session" where
  "tmp_session =
     \<lparr>current_directory = ''/tmp'', environment_vars = [], command_history = [],
      world = (), effects = []\<rparr>"

section \<open>The effects of the primitive calls\<close>

lemma do_send_frame:
  "do_send R c s = (r, s') \<Longrightarrow>
     current_directory s' = current_directory s \<and> environment_vars s' = environment_vars s
     \<and> command_history s' = command_history s \<and> effects s' = effects s @ [Sent c r]"
  by (auto simp: do_send_def split: prod.splits)

lemma do_query_frame:
  "do_query R c s = (r, s') \<Longrightarrow>
     current_directory s' = current_directory s \<and> environment_vars s' = environment_vars s
     \<and> command_history s' = command_history s \<and> effects s' = effects s @ [Queried c r]"
  by (auto simp: do_query_def split: prod.splits)

lemma do_sleep_frame:
  "current_directory (do_sleep R d s) = current_directory s
   \<and> environment_vars (do_sleep R d s) = environment_vars s
   \<and> command_history (do_sleep R d s) = command_history s
   \<and> effects (do_sleep R d s) = effects s @ [Slept d]"
  by (simp add: do_sleep_def)

lemma is_terminal_Inr: "is_terminal (Inr output) = (Status output \<in> set terminal_statuses)"
  by (auto simp: is_terminal_def terminal_statuses_def)

lemma is_terminal_Inl: "is_terminal (Inl e) = False"
  by (simp add: is_terminal_def)

lemma poll_effects_Nil: "poll_effects cid base [] = []"
  by (simp add: poll_effects_def)

lemma poll_effects_Cons:
  "poll_effects cid base ((a, r) # obs) =
     (if is_terminal r then [Queried cid r] else [Queried cid r, Slept (delay_after base a r)])
     @ poll_effects cid base obs"
  by (simp add: poll_effects_def)

lemma poll_effects_no_Sent: "Sent c x \<notin> set (poll_effects cid base obs)"
  by (auto simp: poll_effects_def split: if_splits)

text \<open>
  What one run of the polling loop leaves in the log, for any list of attempt numbers:
  by induction on the attempts, with the session generalised. The three state fields
  are not touched.
\<close>

lemma wait_loop_trace:
  "wait_loop R cid base as s = (b, s') \<Longrightarrow>
     \<exists>rs. length rs \<le> length as
       \<and> effects s' = effects s @ poll_effects cid base (zip as rs)
       \<and> (\<forall>r\<in>set (butlast rs). \<not> is_terminal r)
       \<and> (b \<longrightarrow> rs \<noteq> [] \<and> is_terminal (last rs))
       \<and> (\<not> b \<longrightarrow> length rs = length as \<and> (\<forall>r\<in>set rs. \<not> is_terminal r))
       \<and> current_directory s' = current_directory s
       \<and> environment_vars s' = environment_vars s
       \<and> command_history s' = command_history s"
proof (induction as arbitrary: s)
  case Nil
  then show ?case by (auto simp: poll_effects_Nil intro: exI[of _ "[]"])
next
  case (Cons a as)
  obtain r s1 where q: "do_query R cid s = (r, s1)" by (cases "do_query R cid s")
  note f1 = do_query_frame[OF q]
  show ?case
  proof (cases "is_terminal r")
    case True
    then obtain out where r: "r = Inr out" and st: "Status out \<in> set terminal_statuses"
      by (cases r) (auto simp: is_terminal_Inr is_terminal_Inl)
    from Cons.prems q r st have "b" "s' = s1" by auto
    with f1 True show ?thesis
      by (intro exI[of _ "[r]"]) (simp add: poll_effects_Cons poll_effects_Nil)
  next
    case False
    define d where "d = delay_after base a r"
    have step: "wait_loop R cid base as (do_sleep R d s1) = (b, s')"
      using Cons.prems q False
      by (cases r) (auto simp: d_def delay_after_def is_terminal_Inr is_terminal_Inl)
    from Cons.IH[OF step] obtain rs where rs:
      "length rs \<le> length as"
      "effects s' = effects (do_sleep R d s1) @ poll_effects cid base (zip as rs)"
      "\<forall>r\<in>set (butlast rs). \<not> is_terminal r"
      "b \<longrightarrow> rs \<noteq> [] \<and> is_terminal (last rs)"
      "\<not> b \<longrightarrow> length rs = length as \<and> (\<forall>r\<in>set rs. \<not> is_terminal r)"
      "current_directory s' = current_directory (do_sleep R d s1)"
      "environment_vars s' = environment_vars (do_sleep R d s1)"
      "command_history s' = command_history (do_sleep R d s1)"
      by blast
    show ?thesis
      using rs f1 False do_sleep_frame[of R d s1]
      by (intro exI[of _ "r # rs"]) (auto simp: poll_effects_Cons d_def)
  qed
qed

lemma wait_for_command_frame:
  assumes "wait_for_command R cid n base s = (b, s')"
  shows "\<exists>polling. effects s' = effects s @ polling \<and> (\<forall>c x. Sent c x \<notin> set polling)
           \<and> current_directory s' = current_directory s
           \<and> environment_vars s' = environment_vars s
           \<and> command_history s' = command_history s"
proof -
  from assms have "wait_loop R cid base [0..<n] s = (b, s')"
    by (simp add: wait_for_command_def)
  from wait_loop_trace[OF this] obtain rs where
    "effects s' = effects s @ poll_effects cid base (zip [0..<n] rs)"
    "current_directory s' = current_directory s"
    "environment_vars s' = environment_vars s"
    "command_history s' = command_history s"
    by blast
  then show ?thesis
    using poll_effects_no_Sent by blast
qed

lemma wait_for_command_trace:
  assumes w: "wait_for_command R cid n base s = (b, s')" and n: "0 < n"
  shows "\<exists>rs. effects s' = effects s @ poll_effects cid base (zip [0..<n] rs)
        \<and> 1 \<le> length rs \<and> length rs \<le> n
        \<and> (\<forall>r\<in>set (butlast rs). \<not> is_terminal r)
        \<and> b = is_terminal (last rs)
        \<and> (\<not> b \<longrightarrow> length rs = n)"
proof -
  from w have "wait_loop R cid base [0..<n] s = (b, s')"
    by (simp add: wait_for_command_def)
  from wait_loop_trace[OF this] obtain rs where rs:
    "length rs \<le> length [0..<n]"
    "effects s' = effects s @ poll_effects cid base (zip [0..<n] rs)"
    "\<forall>r\<in>set (butlast rs). \<not> is_terminal r"
    "b \<longrightarrow> rs \<noteq> [] \<and> is_terminal (last rs)"
    "\<not> b \<longrightarrow> length rs = length [0..<n] \<and> (\<forall>r\<in>set rs. \<not> is_terminal r)"
    by blast
  have len: "length rs \<le> n" using rs(1) by simp
  have ne: "rs \<noteq> []"
  proof (cases b)
    case True
    with rs(4) show ?thesis by simp
  next
    case False
    with rs(5) have "length rs = n" by simp
    with n show ?thesis by auto
  qed
  then have one: "1 \<le> length rs" by (cases rs) auto
  have fin: "b = is_terminal (last rs)"
  proof (cases b)
    case True
    with rs(4) show ?thesis by simp
  next
    case False
    with rs(5) ne have "\<not> is_terminal (last rs)" by simp
    with False show ?thesis by simp
  qed
  have full: "\<not> b \<longrightarrow> length rs = n" using rs(5) by simp
  from rs(2) one len rs(3) fin full show ?thesis by blast
qed

lemma send_wait_fetch:
  assumes "do_send R c s = (Inr cid, s1)"
      and "wait_for_command R cid n base s1 = (b, s2)"
      and "do_query R cid s2 = (q, s3)"
  shows "\<exists>polling. effects s3 = effects s @ Sent c (Inr cid) # polling @ [Queried cid q]
           \<and> (\<forall>c x. Sent c x \<notin> set polling)
           \<and> current_directory s3 = current_directory s
           \<and> environment_vars s3 = environment_vars s
           \<and> command_history s3 = command_history s"
  using do_send_frame[OF assms(1)] wait_for_command_frame[OF assms(2)] do_query_frame[OF assms(3)]
  by auto

lemma delay_after_mono: "delay_after base i (Inr out) \<le> delay_after base (i + k) (Inr out)"
proof -
  have "(2::nat) ^ i \<le> 2 ^ (i + k)" by simp
  then have "base * 2 ^ i \<le> base * 2 ^ (i + k)" by (rule mult_le_mono2)
  then show ?thesis unfolding delay_after_def by (simp add: min_le_iff_disj)
qed

lemma delay_after_cap: "delay_after 3 attempt r \<le> 15"
  by (cases r) (simp_all add: delay_after_def)

section \<open>Trimming and splitting\<close>

lemma strip_Nil_iff: "strip s = [] \<longleftrightarrow> (\<forall>c\<in>set s. is_space c)"
proof
  assume "strip s = []"
  then have all: "\<forall>c\<in>set (dropWhile is_space s). is_space c"
    by (simp add: strip_def)
  have "dropWhile is_space s = []"
  proof (cases "dropWhile is_space s")
    case Nil
    then show ?thesis .
  next
    case (Cons x xs)
    with hd_dropWhile[of is_space s] all show ?thesis by auto
  qed
  then show "\<forall>c\<in>set s. is_space c" by simp
next
  assume "\<forall>c\<in>set s. is_space c"
  then have d: "dropWhile is_space s = []" by simp
  show "strip s = []" unfolding strip_def d by simp
qed

lemma amp_not_space: "\<not> is_space CHR ''&''"
  by (simp add: is_space_def)

lemma eq_not_space: "\<not> is_space CHR ''=''"
  by (simp add: is_space_def)

lemma in_set_dropWhile: "x \<in> set xs \<Longrightarrow> \<not> P x \<Longrightarrow> x \<in> set (dropWhile P xs)"
  by (induction xs) auto

lemma in_set_strip: "x \<in> set s \<Longrightarrow> \<not> is_space x \<Longrightarrow> x \<in> set (strip s)"
  by (simp add: strip_def in_set_dropWhile)

lemma set_strip_subset: "set (strip s) \<subseteq> set s"
proof
  fix x
  assume "x \<in> set (strip s)"
  then have "x \<in> set (dropWhile is_space (rev (dropWhile is_space s)))"
    by (simp add: strip_def)
  then have "x \<in> set (rev (dropWhile is_space s))" by (rule set_dropWhileD)
  then have "x \<in> set (dropWhile is_space s)" by simp
  then show "x \<in> set s" by (rule set_dropWhileD)
qed

lemma strip_last_not_space:
  assumes "strip s \<noteq> []"
  shows "\<not> is_space (last (strip s))"
proof -
  let ?d = "dropWhile is_space (rev (dropWhile is_space s))"
  from assms have ne: "?d \<noteq> []" by (simp add: strip_def)
  have "last (strip s) = hd ?d" using ne by (simp add: strip_def last_rev)
  moreover have "\<not> is_space (hd ?d)" using ne by (rule hd_dropWhile)
  ultimately show ?thesis by simp
qed

lemma strip_id:
  assumes "s \<noteq> []" and "\<not> is_space (hd s)" and "\<not> is_space (last s)"
  shows "strip s = s"
proof -
  from assms(1,2) have d: "dropWhile is_space s = s" by (cases s) auto
  from assms(1,3) have "dropWhile is_space (rev s) = rev s"
    by (cases "rev s") (auto simp: hd_rev)
  with d show ?thesis by (simp add: strip_def)
qed

lemma split_amp_amp_not_Nil: "split_amp_amp s \<noteq> []"
  by (induction s rule: split_amp_amp.induct) (auto split: list.splits)

lemma join_split_amp_amp: "join ''&&'' (split_amp_amp s) = s"
proof (induction s rule: split_amp_amp.induct)
  case 1
  show ?case by simp
next
  case (2 a)
  show ?case by simp
next
  case (3 a b cs)
  show ?case
  proof (cases "a = CHR ''&'' \<and> b = CHR ''&''")
    case True
    obtain w ws where w: "split_amp_amp cs = w # ws"
      using split_amp_amp_not_Nil[of cs] by (cases "split_amp_amp cs") auto
    with True 3 show ?thesis by simp
  next
    case False
    obtain w ws where w: "split_amp_amp (b # cs) = w # ws"
      using split_amp_amp_not_Nil[of "b # cs"] by (cases "split_amp_amp (b # cs)") auto
    with False 3 show ?thesis by (cases ws) auto
  qed
qed

lemma blank_input_iff:
  "blank_input s \<longleftrightarrow> (\<forall>seg\<in>set (split_amp_amp s). \<forall>c\<in>set seg. is_space c)"
proof (induction s rule: split_amp_amp.induct)
  case 1
  show ?case by simp
next
  case (2 a)
  show ?case by simp
next
  case (3 a b cs)
  show ?case
  proof (cases "a = CHR ''&'' \<and> b = CHR ''&''")
    case True
    with 3 show ?thesis by simp
  next
    case False
    obtain w ws where w: "split_amp_amp (b # cs) = w # ws"
      using split_amp_amp_not_Nil[of "b # cs"] by (cases "split_amp_amp (b # cs)") auto
    from False 3 w show ?thesis by auto
  qed
qed

lemma atomic_commands_Nil_iff: "atomic_commands command = [] \<longleftrightarrow> blank_input command"
  by (auto simp: atomic_commands_def blank_input_iff filter_empty_conv strip_Nil_iff)

lemma source_commands_eq:
  "map strip (filter (\<lambda>cmd. strip cmd \<noteq> []) (split_amp_amp command)) = atomic_commands command"
  by (simp add: atomic_commands_def filter_map comp_def)

lemma split_eq_1_found:
  assumes "CHR ''='' \<in> set s"
  shows "\<exists>name val. split_eq_1 s = [name, val] \<and> s = name @ ''='' @ val \<and> CHR ''='' \<notin> set name"
proof -
  let ?P = "\<lambda>c. c \<noteq> CHR ''=''"
  from assms have ne: "dropWhile ?P s \<noteq> []" by auto
  then obtain x after where d: "dropWhile ?P s = x # after" by (cases "dropWhile ?P s") auto
  with hd_dropWhile[of ?P s] have x: "x = CHR ''=''" by auto
  have "s = takeWhile ?P s @ dropWhile ?P s" by simp
  with d x have s: "s = takeWhile ?P s @ ''='' @ after" by simp
  have "CHR ''='' \<notin> set (takeWhile ?P s)" using set_takeWhileD by fastforce
  with d s show ?thesis by (auto simp: split_eq_1_def)
qed

lemma split_eq_1_missing: "CHR ''='' \<notin> set s \<Longrightarrow> split_eq_1 s = [s]"
proof -
  assume "CHR ''='' \<notin> set s"
  then have d: "dropWhile (\<lambda>c. c \<noteq> CHR ''='') s = []" by auto
  show ?thesis unfolding split_eq_1_def d by simp
qed

lemma append_sep_unique:
  "x \<notin> set a \<Longrightarrow> x \<notin> set b \<Longrightarrow> a @ x # c = b @ x # d \<Longrightarrow> a = b \<and> c = d"
proof (induction a arbitrary: b)
  case Nil
  then show ?case by (cases b) auto
next
  case (Cons y a)
  then show ?case by (cases b) auto
qed

lemma join_Cons_not_Nil: "x \<noteq> [] \<Longrightarrow> join sep (x # xs) \<noteq> []"
  by (cases xs) auto

lemma env_prefix_eq:
  "env_prefix vars =
     (if vars = [] then []
      else join '' '' (map (\<lambda>(k, v). k @ ''='' @ quoted v) vars) @ '' '')"
proof (cases vars)
  case Nil
  then show ?thesis by (simp add: env_prefix_def)
next
  case (Cons p ps)
  obtain k v where p: "p = (k, v)" by (cases p)
  have "join '' '' (map (\<lambda>(k, v). k @ ''='' @ quoted v) vars) \<noteq> []"
    unfolding Cons p by (simp add: join_Cons_not_Nil)
  with Cons show ?thesis by (simp add: env_prefix_def Let_def)
qed

lemma map_of_dict_set: "map_of (dict_set k v d) k = Some v"
  by (induction d) auto

lemma classify_assignment_has_eq: "classify cmd = VariableAssignment \<Longrightarrow> CHR ''='' \<in> set cmd"
  by (auto simp: classify_def split: if_splits)

section \<open>The handlers and the loop\<close>

lemma env_var_setting_found:
  assumes "strip command = name @ ''='' @ val" and "CHR ''='' \<notin> set name"
  shows "case handle_env_var_setting R command s of (res, s') \<Rightarrow>
     environment_vars s' = dict_set name val (environment_vars s)
     \<and> current_directory s' = current_directory s
     \<and> (res = Inr (''Set environment variable '' @ name @ ''='' @ val)
          \<or> (\<exists>msg. res = Inr (''Error setting environment variable: '' @ msg)))
     \<and> (\<exists>r rest.
          effects s' = effects s @
            Sent (''cd '' @ quoted (current_directory s) @ '' && '' @ name @ ''='' @ val
                  @ '' && echo '' @ quoted (''Set '' @ name @ ''='' @ val)) r # rest
          \<and> (case r of
               Inl (Exception msg) \<Rightarrow>
                 res = Inr (''Error setting environment variable: '' @ msg)
                 \<and> command_history s' = command_history s
             | Inr command_id \<Rightarrow>
                 res = Inr (''Set environment variable '' @ name @ ''='' @ val)
                 \<and> command_history s' = command_history s @ [command]))"
proof -
  have "CHR ''='' \<in> set (strip command)" using assms(1) by simp
  from split_eq_1_found[OF this] obtain n v where nv:
    "split_eq_1 (strip command) = [n, v]" "strip command = n @ ''='' @ v" "CHR ''='' \<notin> set n"
    by blast
  have "n @ CHR ''='' # v = name @ CHR ''='' # val" using nv(2) assms(1) by simp
  with nv(3) assms(2) have eq: "n = name \<and> v = val"
    using append_sep_unique[of "CHR ''=''" n name v val] by simp
  define s0 where "s0 = s\<lparr>environment_vars := dict_set name val (environment_vars s)\<rparr>"
  define full where "full = ''cd '' @ quoted (current_directory s) @ '' && '' @ name @ ''='' @ val
                  @ '' && echo '' @ quoted (''Set '' @ name @ ''='' @ val)"
  obtain r s1 where snd: "do_send R full s0 = (r, s1)" by (cases "do_send R full s0")
  note f1 = do_send_frame[OF snd]
  show ?thesis
  proof (cases r)
    case (Inl e)
    obtain msg where e: "e = Exception msg" by (cases e)
    have "handle_env_var_setting R command s
            = (Inr (''Error setting environment variable: '' @ msg), s1)"
      using snd Inl e nv(1) eq
      by (simp add: handle_env_var_setting_def s0_def full_def Let_def)
    with f1 Inl e show ?thesis by (simp add: s0_def full_def)
  next
    case (Inr cid)
    obtain b s2 where w: "wait_for_command R cid 10 3 s1 = (b, s2)"
      by (cases "wait_for_command R cid 10 3 s1")
    from wait_for_command_frame[OF w] obtain polling where p:
      "effects s2 = effects s1 @ polling"
      "current_directory s2 = current_directory s1"
      "environment_vars s2 = environment_vars s1"
      "command_history s2 = command_history s1"
      by blast
    have "handle_env_var_setting R command s
            = (Inr (''Set environment variable '' @ name @ ''='' @ val),
               s2\<lparr>command_history := command_history s2 @ [command]\<rparr>)"
      using snd Inr w nv(1) eq
      by (simp add: handle_env_var_setting_def s0_def full_def Let_def)
    with f1 p Inr show ?thesis by (simp add: s0_def full_def)
  qed
qed

lemma env_var_setting_exact:
  assumes "strip command = name @ ''='' @ val" and "CHR ''='' \<notin> set name"
  shows "case handle_env_var_setting R command s of (res, s') \<Rightarrow>
     environment_vars s' = dict_set name val (environment_vars s)
     \<and> current_directory s' = current_directory s
     \<and> (\<exists>r rest.
          effects s' = effects s @
            Sent (''cd '' @ quoted (current_directory s) @ '' && '' @ name @ ''='' @ val
                  @ '' && echo '' @ quoted (''Set '' @ name @ ''='' @ val)) r # rest
          \<and> (\<forall>c x. Sent c x \<notin> set rest)
          \<and> (case r of
               Inl (Exception msg) \<Rightarrow>
                 rest = []
                 \<and> res = Inr (''Error setting environment variable: '' @ msg)
                 \<and> command_history s' = command_history s
             | Inr command_id \<Rightarrow>
                 res = Inr (''Set environment variable '' @ name @ ''='' @ val)
                 \<and> command_history s' = command_history s @ [command]))"
proof -
  have "CHR ''='' \<in> set (strip command)" using assms(1) by simp
  from split_eq_1_found[OF this] obtain n v where nv:
    "split_eq_1 (strip command) = [n, v]" "strip command = n @ ''='' @ v" "CHR ''='' \<notin> set n"
    by blast
  have "n @ CHR ''='' # v = name @ CHR ''='' # val" using nv(2) assms(1) by simp
  with nv(3) assms(2) have eq: "n = name \<and> v = val"
    using append_sep_unique[of "CHR ''=''" n name v val] by simp
  define s0 where "s0 = s\<lparr>environment_vars := dict_set name val (environment_vars s)\<rparr>"
  define full where "full = ''cd '' @ quoted (current_directory s) @ '' && '' @ name @ ''='' @ val
                  @ '' && echo '' @ quoted (''Set '' @ name @ ''='' @ val)"
  obtain r s1 where snd: "do_send R full s0 = (r, s1)" by (cases "do_send R full s0")
  note f1 = do_send_frame[OF snd]
  show ?thesis
  proof (cases r)
    case (Inl e)
    obtain msg where e: "e = Exception msg" by (cases e)
    have "handle_env_var_setting R command s
            = (Inr (''Error setting environment variable: '' @ msg), s1)"
      using snd Inl e nv(1) eq
      by (simp add: handle_env_var_setting_def s0_def full_def Let_def)
    with f1 Inl e show ?thesis by (simp add: s0_def full_def)
  next
    case (Inr cid)
    obtain b s2 where w: "wait_for_command R cid 10 3 s1 = (b, s2)"
      by (cases "wait_for_command R cid 10 3 s1")
    from wait_for_command_frame[OF w] obtain polling where p:
      "effects s2 = effects s1 @ polling"
      "\<forall>c x. Sent c x \<notin> set polling"
      "current_directory s2 = current_directory s1"
      "environment_vars s2 = environment_vars s1"
      "command_history s2 = command_history s1"
      by blast
    have "handle_env_var_setting R command s
            = (Inr (''Set environment variable '' @ name @ ''='' @ val),
               s2\<lparr>command_history := command_history s2 @ [command]\<rparr>)"
      using snd Inr w nv(1) eq
      by (simp add: handle_env_var_setting_def s0_def full_def Let_def)
    with f1 p Inr show ?thesis by (simp add: s0_def full_def)
  qed
qed

lemma execute_normal_command_returns: "returned (fst (execute_normal_command R cmd s))"
  by (simp add: execute_normal_command_def returned_def Let_def
      split: prod.splits sum.splits exn.splits)

lemma handle_env_var_setting_returns: "returned (fst (handle_env_var_setting R cmd s))"
proof (cases "CHR ''='' \<in> set (strip cmd)")
  case True
  from split_eq_1_found[OF True] obtain n v where
    "strip cmd = n @ ''='' @ v" "CHR ''='' \<notin> set n" by blast
  from env_var_setting_found[OF this, where R = R and s = s] show ?thesis
    by (cases "handle_env_var_setting R cmd s") (auto simp: returned_def)
next
  case False
  then show ?thesis
    by (simp add: handle_env_var_setting_def split_eq_1_missing returned_def)
qed

lemma dispatch_returns_unless_cd:
  "classify cmd \<noteq> DirectoryChange \<Longrightarrow> returned (fst (dispatch R cmd s))"
  by (cases "classify cmd")
     (simp_all add: dispatch_def execute_normal_command_returns handle_env_var_setting_returns)

text \<open>
  The loop against the sequential reading: induction on the commands, with the
  accumulator and the session generalised.
\<close>

lemma run_commands_outcomes:
  "run_commands R cmds acc s =
     (let outs = outcomes R cmds s; n = length (takeWhile returned outs)
      in if n = length cmds then (Inr (acc @ map projr outs), state_after R cmds s)
         else (Inl (projl (outs ! n)), state_after R (take (Suc n) cmds) s))"
proof (induction cmds arbitrary: acc s)
  case Nil
  show ?case by (simp add: state_after_def)
next
  case (Cons cmd cmds)
  obtain r s1 where d: "dispatch R cmd s = (r, s1)" by (cases "dispatch R cmd s")
  show ?case
  proof (cases r)
    case (Inl e)
    with d show ?thesis by (simp add: returned_def state_after_def)
  next
    case (Inr x)
    with d Cons.IH[of "acc @ [x]" s1] show ?thesis
      by (simp add: returned_def state_after_def Let_def)
  qed
qed

lemma run_commands_returns_unless_cd:
  "list_all (\<lambda>cmd. classify cmd \<noteq> DirectoryChange) cmds \<Longrightarrow>
     \<exists>rs. fst (run_commands R cmds acc s) = Inr rs"
proof (induction cmds arbitrary: acc s)
  case Nil
  show ?case by simp
next
  case (Cons cmd cmds)
  then have "returned (fst (dispatch R cmd s))" by (simp add: dispatch_returns_unless_cd)
  then obtain r s1 where "dispatch R cmd s = (Inr r, s1)"
    by (cases "dispatch R cmd s") (auto simp: returned_def split: sum.splits)
  with Cons show ?case by simp
qed

text \<open>
  \<open>execute_command\<close> against the sequential reading, exceptions included; joining the
  segments of the split with \<^verbatim>\<open>&&\<close> gives the input back.
\<close>

lemma execute_command_sequential:
  "execute_command R command s =
     (let cmds = atomic_commands command;
          outs = outcomes R cmds s;
          n = length (takeWhile returned outs)
      in if n = length cmds
         then (Inr (join ''\<newline>'' (map projr outs)), state_after R cmds s)
         else (Inl (projl (outs ! n)), state_after R (take (Suc n) cmds) s))
   \<and> join ''&&'' (split_amp_amp command) = command"
  by (simp add: execute_command_def source_commands_eq run_commands_outcomes[of R _ "[]"]
      Let_def join_split_amp_amp)

lemma length_outcomes: "length (outcomes R cmds s) = length cmds"
  by (induction cmds arbitrary: s) simp_all

text \<open>
  When every atomic command gives a result, the results are returned joined by line
  feeds, with the state after the last command.
\<close>

lemma execute_command_joined:
  assumes "list_all returned (outcomes R (atomic_commands command) s)"
  shows "execute_command R command s =
           (Inr (join ''\<newline>'' (map projr (outcomes R (atomic_commands command) s))),
            state_after R (atomic_commands command) s)"
proof -
  from assms have "takeWhile returned (outcomes R (atomic_commands command) s)
                     = outcomes R (atomic_commands command) s"
    by (simp add: list_all_iff)
  then have len: "length (takeWhile returned (outcomes R (atomic_commands command) s))
               = length (atomic_commands command)"
    by (simp only: length_outcomes)
  note seq = execute_command_sequential[of R command s, THEN conjunct1]
  show ?thesis unfolding seq Let_def len by simp
qed

text \<open>A compound command: \<^verbatim>\<open>pwd\<close> runs in the directory that the \<^verbatim>\<open>cd\<close> before it set.\<close>

lemma cd_then_pwd_scenario:
  "case execute_command (answering ''/tmp\<newline>'') ''cd /tmp && pwd'' (new_session ()) of
     (res, s') \<Rightarrow>
       res = Inr ''Changed to directory: /tmp\<newline>/tmp\<newline>''
       \<and> current_directory s' = ''/tmp''
       \<and> command_history s' = [''cd /tmp'', ''pwd'']
       \<and> [c. Sent c r \<leftarrow> effects s']
           = [''if [ -d '/tmp' ]; then cd '/tmp' && pwd; else echo 'Directory not found'; fi'',
              ''cd '/tmp' && pwd'']"
  by code_simp

text \<open>
  Only a directory change can make \<open>execute_command\<close> raise: the other two handlers
  catch every exception.
\<close>

lemma execute_command_returns_unless_cd:
  assumes "list_all (\<lambda>cmd. classify cmd \<noteq> DirectoryChange) (atomic_commands command)"
  shows "\<exists>text. fst (execute_command R command s) = Inr text"
proof -
  from run_commands_returns_unless_cd[OF assms, of R "[]" s]
  obtain rs where "fst (run_commands R (atomic_commands command) [] s) = Inr rs" by blast
  then show ?thesis
    by (cases "run_commands R (atomic_commands command) [] s")
       (simp add: execute_command_def source_commands_eq)
qed

text \<open>
  An atomic command is trimmed, so one that starts with \<^verbatim>\<open>cd\<close> and a space has a path
  after it: the branch of \<^verbatim>\<open>_handle_cd_command\<close> for an empty path (\<^verbatim>\<open>cd && pwd\<close>) is
  never taken from \<open>execute_command\<close>.
\<close>

lemma cd_home_branch_unreachable:
  assumes "cmd \<in> set (atomic_commands command)" and "classify cmd = DirectoryChange"
  shows "strip (drop 3 (strip cmd)) \<noteq> []"
proof -
  from assms(1) obtain seg where cmd: "cmd = strip seg" "cmd \<noteq> []"
    by (auto simp: atomic_commands_def)
  from assms(2) have "startswith cmd ''cd ''"
    by (auto simp: classify_def split: if_splits)
  then have sw: "take 3 cmd = ''cd ''"
    by (simp add: startswith_def numeral_3_eq_3)
  have last: "\<not> is_space (last cmd)" using cmd strip_last_not_space by auto
  have hd: "hd cmd = CHR ''c''" using sw cmd(2) by (cases cmd) auto
  have hdns: "\<not> is_space (hd cmd)" unfolding hd by (simp add: is_space_def)
  have id: "strip cmd = cmd" using cmd(2) hdns last by (rule strip_id)
  have split: "cmd = ''cd '' @ drop 3 cmd" using sw append_take_drop_id[of 3 cmd] by simp
  have rest: "drop 3 cmd \<noteq> []"
  proof
    assume "drop 3 cmd = []"
    with split have "cmd = ''cd ''" by simp
    with last show False by (simp add: is_space_def)
  qed
  then have "last (drop 3 cmd) = last cmd" by simp
  with last rest have "\<exists>c\<in>set (drop 3 cmd). \<not> is_space c"
    using last_in_set by metis
  then show ?thesis by (simp add: id strip_Nil_iff)
qed

text \<open>
Two runs of the poller on scripted statuses.
\<close>

lemma poll_three_statuses:
  "wait_for_command scripted ''id-1'' 10 3 (new_session [''Pending'', ''InProgress'', ''Success''])
   = (True,
      \<lparr>current_directory = ''/home/ec2-user'', environment_vars = [], command_history = [],
       world = [],
       effects =
         [Queried ''id-1'' (Inr \<lparr>Status = ''Pending'', StandardOutputContent = []\<rparr>),
          Slept 3,
          Queried ''id-1'' (Inr \<lparr>Status = ''InProgress'', StandardOutputContent = []\<rparr>),
          Slept 6,
          Queried ''id-1'' (Inr \<lparr>Status = ''Success'', StandardOutputContent = []\<rparr>)]\<rparr>)"
  by code_simp

lemma poll_budget_exhausted:
  "fst (wait_for_command scripted ''id-1'' 10 3 (new_session [])) = False
   \<and> [d. Slept d \<leftarrow> effects (snd (wait_for_command scripted ''id-1'' 10 3 (new_session [])))]
       = [3, 6, 12, 15, 15, 15, 15, 15, 15, 15]"
  by code_simp

section \<open>The claims\<close>

subsection \<open>C1: classification\<close>

text \<open>
  Claim C1 says that an atomic command is a DirectoryChange when it starts with
  \<^verbatim>\<open>cd\<close> and a space or is exactly \<^verbatim>\<open>cd\<close>, otherwise a VariableAssignment when it
  contains \<^verbatim>\<open>=\<close> and does not start with \<^verbatim>\<open>export\<close>, \<^verbatim>\<open>echo\<close> or \<^verbatim>\<open>printf\<close> and a
  space, otherwise a GeneralExecution. The program tests only the prefix \<^verbatim>\<open>cd\<close> with
  its space, so the bare \<^verbatim>\<open>cd\<close> is a GeneralExecution: in a session that is in
  \<^verbatim>\<open>/tmp\<close> it is sent as \<^verbatim>\<open>cd '/tmp' && cd\<close>, its (empty) output is the result, and the
  directory of the session stays \<^verbatim>\<open>/tmp\<close>.
\<close>

theorem bare_cd_runs_as_general:
  "classify ''cd'' = GeneralExecution
   \<and> fst (execute_command (answering []) ''cd'' tmp_session) = Inr []
   \<and> current_directory (snd (execute_command (answering []) ''cd'' tmp_session)) = ''/tmp''
   \<and> hd (effects (snd (execute_command (answering []) ''cd'' tmp_session)))
       = Sent ''cd '/tmp' && cd'' (Inr ''id-1'')"
  by code_simp

subsection \<open>C2: the outcome of a directory change\<close>

text \<open>
  Claim C2, as amended: the handler sends the probe for the path; when the send or the
  fetch raises, the exception leaves the handler with directory and history unchanged.
  Otherwise the fetched output is trimmed, and when the trimmed output equals
  \<^verbatim>\<open>Directory not found\<close> the handler returns that sentinel and leaves directory and
  history unchanged; for every other output it sets the directory to the trimmed
  output, appends the original command to the history and returns
  \<^verbatim>\<open>Changed to directory:\<close> followed by the trimmed output. The variables are never
  changed.
\<close>

theorem cd_probe_outcome:
  "case handle_cd_command R command s of (res, s') \<Rightarrow>
     (\<exists>r rest.
        effects s' = effects s @
          Sent (cd_check_cmd (current_directory s) (strip (drop 3 (strip command)))) r # rest
        \<and> (case r of
             Inl e \<Rightarrow>
               rest = [] \<and> res = Inl e
               \<and> current_directory s' = current_directory s
               \<and> command_history s' = command_history s
           | Inr command_id \<Rightarrow>
               (\<exists>polling q. rest = polling @ [Queried command_id q]
                  \<and> (case q of
                       Inl e \<Rightarrow>
                         res = Inl e
                         \<and> current_directory s' = current_directory s
                         \<and> command_history s' = command_history s
                     | Inr output \<Rightarrow>
                         if strip (StandardOutputContent output) = ''Directory not found''
                         then res = Inr ''Directory not found''
                              \<and> current_directory s' = current_directory s
                              \<and> command_history s' = command_history s
                         else res = Inr (''Changed to directory: ''
                                         @ strip (StandardOutputContent output))
                              \<and> current_directory s' = strip (StandardOutputContent output)
                              \<and> command_history s' = command_history s @ [command]))))
     \<and> environment_vars s' = environment_vars s"
proof -
  define chk where "chk = cd_check_cmd (current_directory s) (strip (drop 3 (strip command)))"
  obtain r s1 where snd: "do_send R chk s = (r, s1)" by (cases "do_send R chk s")
  note f1 = do_send_frame[OF snd]
  show ?thesis
  proof (cases r)
    case (Inl e)
    have "handle_cd_command R command s = (Inl e, s1)"
      using snd Inl by (simp add: handle_cd_command_def chk_def)
    with f1 Inl show ?thesis
      by (simp add: chk_def)
  next
    case (Inr cid)
    obtain b s2 where w: "wait_for_command R cid 10 3 s1 = (b, s2)"
      by (cases "wait_for_command R cid 10 3 s1")
    obtain q s3 where f: "do_query R cid s2 = (q, s3)" by (cases "do_query R cid s2")
    from send_wait_fetch[OF snd[unfolded Inr] w f] obtain polling where p:
      "effects s3 = effects s @ Sent chk (Inr cid) # polling @ [Queried cid q]"
      "current_directory s3 = current_directory s"
      "environment_vars s3 = environment_vars s"
      "command_history s3 = command_history s"
      by blast
    show ?thesis
    proof (cases q)
      case (Inl e)
      have "handle_cd_command R command s = (Inl e, s3)"
        using snd Inr w f Inl by (simp add: handle_cd_command_def chk_def)
      with p Inl Inr show ?thesis
        by (simp add: chk_def)
    next
      case out: (Inr ov)
      define result where "result = strip (StandardOutputContent ov)"
      have "handle_cd_command R command s =
              (if result \<noteq> ''Directory not found''
               then (Inr (''Changed to directory: '' @ result),
                     s3\<lparr>current_directory := result,
                        command_history := command_history s3 @ [command]\<rparr>)
               else (Inr ''Directory not found'', s3))"
        using snd Inr w f out
        by (simp add: handle_cd_command_def chk_def result_def Let_def del: One_nat_def)
      with p out Inr show ?thesis
        by (cases "result = ''Directory not found''") (simp_all add: chk_def result_def)
    qed
  qed
qed

text \<open>
  An instance: the probe answers \<^verbatim>\<open>/tmp\<close> and a line feed.
\<close>

theorem cd_probe_outcome_witness:
  "case handle_cd_command (answering ''/tmp\<newline>'') ''cd /tmp'' (new_session ()) of
     (res, s') \<Rightarrow>
       res = Inr ''Changed to directory: /tmp''
       \<and> current_directory s' = ''/tmp''
       \<and> command_history s' = [''cd /tmp'']
       \<and> hd (effects s')
           = Sent ''if [ -d '/tmp' ]; then cd '/tmp' && pwd; else echo 'Directory not found'; fi''
               (Inr ''id-1'')"
proof -
  have e: "case handle_cd_command (answering ''/tmp\<newline>'') ''cd /tmp'' (new_session ()) of
     (res, s') \<Rightarrow>
       res = Inr ''Changed to directory: /tmp''
       \<and> current_directory s' = ''/tmp''
       \<and> command_history s' = [''cd /tmp'']
       \<and> hd (effects s')
           = Sent ''if [ -d '/tmp' ]; then cd '/tmp' && pwd; else echo 'Directory not found'; fi''
               (Inr ''id-1'')"
    by code_simp
  from cd_probe_outcome[where R = "answering ''/tmp\<newline>''" and command = "''cd /tmp''"
         and s = "new_session ()"]
  show ?thesis by - (rule e)
qed

text \<open>
  The claim as it was stated compares the probe output itself with the sentinel. The
  output of \<^verbatim>\<open>echo 'Directory not found'\<close> ends with a line feed: it is another string
  than the sentinel, and still the handler returns the sentinel, leaves the directory
  where it was and records nothing.
\<close>

theorem cd_sentinel_with_newline:
  "''Directory not found\<newline>'' \<noteq> ''Directory not found''
   \<and> last (effects (snd (handle_cd_command (answering ''Directory not found\<newline>'')
                           ''cd /nope'' (new_session ()))))
       = Queried ''id-1''
           (Inr \<lparr>Status = ''Success'', StandardOutputContent = ''Directory not found\<newline>''\<rparr>)
   \<and> fst (handle_cd_command (answering ''Directory not found\<newline>'') ''cd /nope''
            (new_session ())) = Inr ''Directory not found''
   \<and> current_directory (snd (handle_cd_command (answering ''Directory not found\<newline>'')
                               ''cd /nope'' (new_session ()))) = ''/home/ec2-user''
   \<and> command_history (snd (handle_cd_command (answering ''Directory not found\<newline>'')
                              ''cd /nope'' (new_session ()))) = []"
  by code_simp

subsection \<open>C3: a variable assignment updates the local mapping\<close>

text \<open>
  Claim C3: a command classified as VariableAssignment splits at its first \<^verbatim>\<open>=\<close> into a
  name and a value, and after the handler the mapping holds that pair, whatever the
  remote did: when the send raised, the result is the error string and the pair is in
  the mapping all the same, as \<open>get_state\<close> reports it.
\<close>

theorem variable_assignment_updates:
  assumes "classify cmd = VariableAssignment"
  shows "\<exists>name val. strip cmd = name @ ''='' @ val \<and> CHR ''='' \<notin> set name
     \<and> (case dispatch R cmd s of (res, s') \<Rightarrow>
          environment_vars s' = dict_set name val (environment_vars s)
          \<and> map_of (state_environment_variables (fst (get_state s'))) name = Some val
          \<and> current_directory s' = current_directory s
          \<and> (\<exists>r rest.
               effects s' = effects s @
                 Sent (''cd '' @ quoted (current_directory s) @ '' && '' @ name @ ''='' @ val
                       @ '' && echo '' @ quoted (''Set '' @ name @ ''='' @ val)) r # rest
               \<and> (case r of
                    Inl (Exception msg) \<Rightarrow>
                      res = Inr (''Error setting environment variable: '' @ msg)
                      \<and> command_history s' = command_history s
                  | Inr command_id \<Rightarrow>
                      res = Inr (''Set environment variable '' @ name @ ''='' @ val)
                      \<and> command_history s' = command_history s @ [cmd])))"
proof -
  have "CHR ''='' \<in> set (strip cmd)"
    using classify_assignment_has_eq[OF assms] by (simp add: in_set_strip eq_not_space)
  from split_eq_1_found[OF this] obtain name val where nv:
    "strip cmd = name @ ''='' @ val" "CHR ''='' \<notin> set name"
    by blast
  have disp: "dispatch R cmd s = handle_env_var_setting R cmd s"
    using assms by (simp add: dispatch_def)
  show ?thesis
    using env_var_setting_found[OF nv, where R = R and s = s] nv
    by (intro exI[of _ name] exI[of _ val])
       (auto simp: disp get_state_def map_of_dict_set split: prod.splits)
qed

text \<open>
  An instance on the remote that cannot be reached.
\<close>

theorem variable_assignment_updates_witness:
  "classify ''FOO=bar'' = VariableAssignment
   \<and> environment_vars (snd (dispatch offline ''FOO=bar'' (new_session ()))) = [(''FOO'', ''bar'')]
   \<and> map_of (state_environment_variables
               (fst (get_state (snd (dispatch offline ''FOO=bar'' (new_session ()))))))
        ''FOO'' = Some ''bar''
   \<and> fst (dispatch offline ''FOO=bar'' (new_session ()))
       = Inr ''Error setting environment variable: connection refused''"
proof -
  have h: "classify ''FOO=bar'' = VariableAssignment" by code_simp
  have e: "environment_vars (snd (dispatch offline ''FOO=bar'' (new_session ()))) = [(''FOO'', ''bar'')]
   \<and> map_of (state_environment_variables
               (fst (get_state (snd (dispatch offline ''FOO=bar'' (new_session ()))))))
        ''FOO'' = Some ''bar''
   \<and> fst (dispatch offline ''FOO=bar'' (new_session ()))
       = Inr ''Error setting environment variable: connection refused''"
    by code_simp
  from variable_assignment_updates[OF h, where R = offline and s = "new_session ()"] show ?thesis
    by - (intro conjI h e)
qed

subsection \<open>C4: failures of the remote and the rest of a compound command\<close>

text \<open>
  Claim C4 says that every failure of the remote is caught within its atomic command
  and turned into an error string, and that the commands after it still run. The
  handlers of variable assignments and of general commands do so (second part below,
  and \<open>execute_command_returns_unless_cd\<close>); the handler of directory changes does
  not: on a remote that cannot be reached, \<^verbatim>\<open>cd /tmp && pwd\<close> raises out of
  \<open>execute_command\<close> after the one send of the probe, and \<^verbatim>\<open>pwd\<close> is never sent.
\<close>

theorem cd_failure_aborts_compound:
  "fst (execute_command offline ''cd /tmp && pwd'' (new_session ()))
     = Inl (Exception ''connection refused'')
   \<and> effects (snd (execute_command offline ''cd /tmp && pwd'' (new_session ())))
     = [Sent ''if [ -d '/tmp' ]; then cd '/tmp' && pwd; else echo 'Directory not found'; fi''
          (Inl (Exception ''connection refused''))]
   \<and> fst (execute_command offline ''FOO=bar && pwd'' (new_session ()))
     = Inr ''Error setting environment variable: connection refused\<newline>Error executing command: connection refused''"
  by code_simp

subsection \<open>C5: general execution\<close>

text \<open>
  Claim C5: for a command classified as GeneralExecution the one string sent is
  \<^verbatim>\<open>cd '<current_directory>' && \<close> followed by the prefix and the command, where the
  prefix is empty when no variable is tracked and otherwise lists every tracked
  variable as \<^verbatim>\<open>name='value'\<close>, joined by spaces and followed by one space. When send and
  fetch return, the result is the fetched output as it is and the command is appended
  to the history; when one of them raises, the result is the error string and the
  history is unchanged. Directory and variables are never changed.
\<close>

theorem general_execution:
  assumes "classify cmd = GeneralExecution"
  shows "case dispatch R cmd s of (res, s') \<Rightarrow>
     (\<exists>r rest.
        effects s' = effects s @
          Sent (''cd '' @ quoted (current_directory s) @ '' && ''
                @ (if environment_vars s = [] then []
                   else join '' '' (map (\<lambda>(k, v). k @ ''='' @ quoted v) (environment_vars s))
                        @ '' '')
                @ cmd) r # rest
        \<and> (\<forall>c x. Sent c x \<notin> set rest)
        \<and> (case r of
             Inl (Exception msg) \<Rightarrow>
               rest = [] \<and> res = Inr (''Error executing command: '' @ msg)
               \<and> command_history s' = command_history s
           | Inr command_id \<Rightarrow>
               (\<exists>polling q. rest = polling @ [Queried command_id q]
                  \<and> (case q of
                       Inl (Exception msg) \<Rightarrow>
                         res = Inr (''Error executing command: '' @ msg)
                         \<and> command_history s' = command_history s
                     | Inr output \<Rightarrow>
                         res = Inr (StandardOutputContent output)
                         \<and> command_history s' = command_history s @ [cmd]))))
     \<and> current_directory s' = current_directory s
     \<and> environment_vars s' = environment_vars s"
proof -
  define full where "full = ''cd '' @ quoted (current_directory s) @ '' && ''
        @ env_prefix (environment_vars s) @ cmd"
  have disp: "dispatch R cmd s = execute_normal_command R cmd s"
    using assms by (simp add: dispatch_def)
  obtain r s1 where snd: "do_send R full s = (r, s1)" by (cases "do_send R full s")
  note f1 = do_send_frame[OF snd]
  show ?thesis
  proof (cases r)
    case (Inl e)
    obtain msg where e: "e = Exception msg" by (cases e)
    have "execute_normal_command R cmd s = (Inr (''Error executing command: '' @ msg), s1)"
      using snd Inl e by (simp add: execute_normal_command_def full_def)
    with f1 Inl e show ?thesis
      by (simp add: disp full_def env_prefix_eq)
  next
    case (Inr cid)
    obtain b s2 where w: "wait_for_command R cid 10 3 s1 = (b, s2)"
      by (cases "wait_for_command R cid 10 3 s1")
    obtain q s3 where f: "do_query R cid s2 = (q, s3)" by (cases "do_query R cid s2")
    from send_wait_fetch[OF snd[unfolded Inr] w f] obtain polling where p:
      "effects s3 = effects s @ Sent full (Inr cid) # polling @ [Queried cid q]"
      "\<forall>c x. Sent c x \<notin> set polling"
      "current_directory s3 = current_directory s"
      "environment_vars s3 = environment_vars s"
      "command_history s3 = command_history s"
      by blast
    show ?thesis
    proof (cases q)
      case (Inl e)
      obtain msg where e: "e = Exception msg" by (cases e)
      have "execute_normal_command R cmd s = (Inr (''Error executing command: '' @ msg), s3)"
        using snd Inr w f Inl e by (simp add: execute_normal_command_def full_def)
      with p Inl e Inr show ?thesis
        by (simp add: disp full_def env_prefix_eq)
    next
      case out: (Inr ov)
      have "execute_normal_command R cmd s =
              (Inr (StandardOutputContent ov),
               s3\<lparr>command_history := command_history s3 @ [cmd]\<rparr>)"
        using snd Inr w f out by (simp add: execute_normal_command_def full_def)
      with p out Inr show ?thesis
        by (simp add: disp full_def env_prefix_eq)
    qed
  qed
qed

text \<open>
  An instance: \<^verbatim>\<open>pwd\<close> in \<^verbatim>\<open>/tmp\<close> with one tracked variable.
\<close>

theorem general_execution_witness:
  "classify ''pwd'' = GeneralExecution
   \<and> (case dispatch (answering ''/tmp\<newline>'') ''pwd''
              (tmp_session\<lparr>environment_vars := [(''FOO'', ''bar'')]\<rparr>) of
        (res, s') \<Rightarrow>
          res = Inr ''/tmp\<newline>''
          \<and> hd (effects s') = Sent ''cd '/tmp' && FOO='bar' pwd'' (Inr ''id-1'')
          \<and> command_history s' = [''pwd'']
          \<and> current_directory s' = ''/tmp''
          \<and> environment_vars s' = [(''FOO'', ''bar'')])"
proof -
  have h: "classify ''pwd'' = GeneralExecution" by code_simp
  have e: "case dispatch (answering ''/tmp\<newline>'') ''pwd''
              (tmp_session\<lparr>environment_vars := [(''FOO'', ''bar'')]\<rparr>) of
        (res, s') \<Rightarrow>
          res = Inr ''/tmp\<newline>''
          \<and> hd (effects s') = Sent ''cd '/tmp' && FOO='bar' pwd'' (Inr ''id-1'')
          \<and> command_history s' = [''pwd'']
          \<and> current_directory s' = ''/tmp''
          \<and> environment_vars s' = [(''FOO'', ''bar'')]"
    by code_simp
  from general_execution[OF h, where R = "answering ''/tmp\<newline>''"
         and s = "tmp_session\<lparr>environment_vars := [(''FOO'', ''bar'')]\<rparr>"]
  show ?thesis by - (intro conjI h e)
qed

subsection \<open>C6: compound commands run in order\<close>

text \<open>
  Claim C6 says that \<open>execute_command\<close> runs the atomic commands of its input (split
  at the literal \<^verbatim>\<open>&&\<close>, trimmed, the empty ones dropped) in order, each in the state the
  one before it left, and returns their results joined by line feeds. The program does
  so whenever every command gives a result (\<open>execute_command_joined\<close>). It does not
  when a directory change raises, the defect of C4: on a remote that cannot be reached,
  \<^verbatim>\<open>pwd && cd /tmp && ls\<close> has three atomic commands, the first is sent and answered with
  its error string, the probe of the second raises out of \<open>execute_command\<close>, no
  joined result is returned and \<^verbatim>\<open>ls\<close> is never sent.
\<close>

theorem compound_stops_at_raising_cd:
  "atomic_commands ''pwd && cd /tmp && ls'' = [''pwd'', ''cd /tmp'', ''ls'']
   \<and> fst (execute_command offline ''pwd && cd /tmp && ls'' (new_session ()))
       = Inl (Exception ''connection refused'')
   \<and> [c. Sent c r \<leftarrow>
         effects (snd (execute_command offline ''pwd && cd /tmp && ls'' (new_session ())))]
       = [''cd '/home/ec2-user' && pwd'',
          ''if [ -d '/tmp' ]; then cd '/tmp' && pwd; else echo 'Directory not found'; fi'']
   \<and> fst (execute_command offline ''pwd && ls'' (new_session ()))
       = Inr ''Error executing command: connection refused\<newline>Error executing command: connection refused''"
  by code_simp

subsection \<open>C7: the poller\<close>

text \<open>
  Claim C7: with its defaults the poller makes between one and ten status queries. The
  outcomes \<open>rs\<close> it observes are all non-terminal but possibly the last; it returns
  whether the last one is terminal, and it has used all ten attempts when it returns
  false. Its effects are, per outcome, the query and then a delay, except after a
  terminal outcome, where nothing follows. The delay is 3 seconds after a query that
  raised and \<open>min (3 * 2 ^ attempt) 15\<close> after a non-terminal status: never more than
  15, and never smaller at a later attempt.
\<close>

theorem wait_for_command_polling:
  "(case wait_for_command R command_id 10 3 s of (finished, s') \<Rightarrow>
      \<exists>rs. effects s' = effects s @ poll_effects command_id 3 (zip [0..<10] rs)
        \<and> 1 \<le> length rs \<and> length rs \<le> 10
        \<and> (\<forall>r\<in>set (butlast rs). \<not> is_terminal r)
        \<and> finished = is_terminal (last rs)
        \<and> (\<not> finished \<longrightarrow> length rs = 10))
   \<and> (\<forall>attempt r. delay_after 3 attempt r \<le> 15)
   \<and> (\<forall>i k out. delay_after 3 i (Inr out) \<le> delay_after 3 (i + k) (Inr out))
   \<and> (\<forall>attempt e. delay_after 3 attempt (Inl e) = 3)
   \<and> (\<forall>attempt out. delay_after 3 attempt (Inr out) = min (3 * 2 ^ attempt) 15)"
proof -
  obtain b s' where w: "wait_for_command R command_id 10 3 s = (b, s')"
    by (cases "wait_for_command R command_id 10 3 s")
  have c1: "\<exists>rs. effects s' = effects s @ poll_effects command_id 3 (zip [0..<10] rs)
        \<and> 1 \<le> length rs \<and> length rs \<le> 10
        \<and> (\<forall>r\<in>set (butlast rs). \<not> is_terminal r)
        \<and> b = is_terminal (last rs)
        \<and> (\<not> b \<longrightarrow> length rs = 10)"
    by (rule wait_for_command_trace[OF w]) simp
  have c2: "\<forall>attempt r. delay_after 3 attempt r \<le> 15"
    using delay_after_cap by blast
  have c3: "\<forall>i k out. delay_after 3 i (Inr out) \<le> delay_after 3 (i + k) (Inr out)"
    using delay_after_mono by blast
  have c4: "\<forall>attempt e. delay_after 3 attempt (Inl e) = 3"
    by (simp add: delay_after_def)
  have c5: "\<forall>attempt out. delay_after 3 attempt (Inr out) = min (3 * 2 ^ attempt) 15"
    by (simp add: delay_after_def)
  show ?thesis unfolding w prod.case
    by (intro conjI c1 c2 c3 c4 c5)
qed

text \<open>
  Two instances: the statuses Pending, InProgress, Success give three queries and the
  delays 3 and 6; a command that stays InProgress uses all ten attempts, with the
  delays 3, 6, 12 and then 15 seven times, and the poller returns false.
\<close>

theorem wait_for_command_polling_witness:
  "(case wait_for_command scripted ''id-1'' 10 3
           (new_session [''Pending'', ''InProgress'', ''Success'']) of
      (finished, s') \<Rightarrow>
        finished
        \<and> effects s' =
          [Queried ''id-1'' (Inr \<lparr>Status = ''Pending'', StandardOutputContent = []\<rparr>),
           Slept 3,
           Queried ''id-1'' (Inr \<lparr>Status = ''InProgress'', StandardOutputContent = []\<rparr>),
           Slept 6,
           Queried ''id-1'' (Inr \<lparr>Status = ''Success'', StandardOutputContent = []\<rparr>)])
   \<and> fst (wait_for_command scripted ''id-1'' 10 3 (new_session [])) = False
   \<and> [d. Slept d \<leftarrow> effects (snd (wait_for_command scripted ''id-1'' 10 3 (new_session [])))]
       = [3, 6, 12, 15, 15, 15, 15, 15, 15, 15]"
proof -
  have e: "case wait_for_command scripted ''id-1'' 10 3
          (new_session [''Pending'', ''InProgress'', ''Success'']) of
     (finished, s') \<Rightarrow>
       finished
       \<and> effects s' =
         [Queried ''id-1'' (Inr \<lparr>Status = ''Pending'', StandardOutputContent = []\<rparr>),
          Slept 3,
          Queried ''id-1'' (Inr \<lparr>Status = ''InProgress'', StandardOutputContent = []\<rparr>),
          Slept 6,
          Queried ''id-1'' (Inr \<lparr>Status = ''Success'', StandardOutputContent = []\<rparr>)]"
    by (simp add: poll_three_statuses)
  from wait_for_command_polling[where R = scripted and command_id = "''id-1''"
         and s = "new_session [''Pending'', ''InProgress'', ''Success'']"]
       wait_for_command_polling[where R = scripted and command_id = "''id-1''"
         and s = "new_session []"]
  show ?thesis by - (intro conjI e poll_budget_exhausted[THEN conjunct1]
                       poll_budget_exhausted[THEN conjunct2])
qed

subsection \<open>C8: reading the state\<close>

text \<open>
  Claim C8: \<open>get_state\<close> leaves the session as it is; the history it returns has at
  most ten entries and is the end of the recorded history, in its order.
\<close>

theorem get_state_pure:
  "snd (get_state s) = s
   \<and> length (state_command_history (fst (get_state s))) \<le> 10
   \<and> length (state_command_history (fst (get_state s))) = min 10 (length (command_history s))
   \<and> command_history s =
       take (length (command_history s) - 10) (command_history s)
       @ state_command_history (fst (get_state s))
   \<and> state_current_directory (fst (get_state s)) = current_directory s
   \<and> state_environment_variables (fst (get_state s)) = environment_vars s"
  by (auto simp: get_state_def)

text \<open>
  An instance: of eleven recorded commands the last ten are returned.
\<close>

theorem get_state_pure_witness:
  "state_command_history (fst (get_state
     (tmp_session\<lparr>command_history :=
        [''a'', ''b'', ''c'', ''d'', ''e'', ''f'', ''g'', ''h'', ''i'', ''j'', ''k'']\<rparr>)))
   = [''b'', ''c'', ''d'', ''e'', ''f'', ''g'', ''h'', ''i'', ''j'', ''k'']"
proof -
  have e: "state_command_history (fst (get_state
     (tmp_session\<lparr>command_history :=
        [''a'', ''b'', ''c'', ''d'', ''e'', ''f'', ''g'', ''h'', ''i'', ''j'', ''k'']\<rparr>)))
   = [''b'', ''c'', ''d'', ''e'', ''f'', ''g'', ''h'', ''i'', ''j'', ''k'']"
    by code_simp
  from get_state_pure[where s = "tmp_session\<lparr>command_history :=
        [''a'', ''b'', ''c'', ''d'', ''e'', ''f'', ''g'', ''h'', ''i'', ''j'', ''k'']\<rparr>"]
  show ?thesis by - (rule e)
qed

subsection \<open>C9: a variable assignment without a value\<close>

text \<open>
  Claim C9, as amended: the handler of variable assignments never lets an exception
  out. A command classified as VariableAssignment contains \<^verbatim>\<open>=\<close>, and the handler
  answers without sending anything exactly when its command has no \<^verbatim>\<open>=\<close> at all: then
  the result is the string of the failed unpacking and the session is as it was. A
  command whose trimmed text is a name, \<^verbatim>\<open>=\<close> and a value, the empty value included, is
  never a usage error: the handler records the value under the name, sends the
  assignment once, and returns the confirmation \<^verbatim>\<open>Set environment variable NAME=VALUE\<close>
  with the command appended to the history when the send returns, the error string of
  the send's exception with the history unchanged when the send raises.
\<close>

theorem env_var_setting_local:
  "(\<exists>res. fst (handle_env_var_setting R command s) = Inr res)
   \<and> (classify command = VariableAssignment \<longrightarrow> CHR ''='' \<in> set command)
   \<and> (CHR ''='' \<notin> set command \<longrightarrow>
        handle_env_var_setting R command s =
          (Inr ''Error setting environment variable: not enough values to unpack (expected 2, got 1)'',
           s))
   \<and> (effects (snd (handle_env_var_setting R command s)) = effects s
        \<longleftrightarrow> CHR ''='' \<notin> set command)
   \<and> (strip command = name @ ''='' @ val \<longrightarrow> CHR ''='' \<notin> set name \<longrightarrow>
        (case handle_env_var_setting R command s of (res, s') \<Rightarrow>
           environment_vars s' = dict_set name val (environment_vars s)
           \<and> current_directory s' = current_directory s
           \<and> (\<exists>r rest.
                effects s' = effects s @
                  Sent (''cd '' @ quoted (current_directory s) @ '' && '' @ name @ ''='' @ val
                        @ '' && echo '' @ quoted (''Set '' @ name @ ''='' @ val)) r # rest
                \<and> (\<forall>c x. Sent c x \<notin> set rest)
                \<and> (case r of
                     Inl (Exception msg) \<Rightarrow>
                       rest = []
                       \<and> res = Inr (''Error setting environment variable: '' @ msg)
                       \<and> command_history s' = command_history s
                   | Inr command_id \<Rightarrow>
                       res = Inr (''Set environment variable '' @ name @ ''='' @ val)
                       \<and> command_history s' = command_history s @ [command]))))"
proof (intro conjI impI)
  show "\<exists>res. fst (handle_env_var_setting R command s) = Inr res"
    using handle_env_var_setting_returns[of R command s]
    by (cases "fst (handle_env_var_setting R command s)") (auto simp: returned_def)
next
  assume "classify command = VariableAssignment"
  then show "CHR ''='' \<in> set command" by (rule classify_assignment_has_eq)
next
  assume "CHR ''='' \<notin> set command"
  then have "CHR ''='' \<notin> set (strip command)" using set_strip_subset by blast
  then show "handle_env_var_setting R command s =
          (Inr ''Error setting environment variable: not enough values to unpack (expected 2, got 1)'',
           s)"
    by (simp add: handle_env_var_setting_def split_eq_1_missing)
next
  show "effects (snd (handle_env_var_setting R command s)) = effects s
        \<longleftrightarrow> CHR ''='' \<notin> set command"
  proof (cases "CHR ''='' \<in> set command")
    case True
    then have "CHR ''='' \<in> set (strip command)" by (simp add: in_set_strip eq_not_space)
    from split_eq_1_found[OF this] obtain n v where
      "strip command = n @ ''='' @ v" "CHR ''='' \<notin> set n" by blast
    from env_var_setting_found[OF this, where R = R and s = s]
    have "effects (snd (handle_env_var_setting R command s)) \<noteq> effects s"
      by (cases "handle_env_var_setting R command s") auto
    with True show ?thesis by simp
  next
    case False
    then have "CHR ''='' \<notin> set (strip command)" using set_strip_subset by blast
    then have "handle_env_var_setting R command s =
          (Inr ''Error setting environment variable: not enough values to unpack (expected 2, got 1)'',
           s)"
      by (simp add: handle_env_var_setting_def split_eq_1_missing)
    with False show ?thesis by simp
  qed
next
  assume a: "strip command = name @ ''='' @ val" "CHR ''='' \<notin> set name"
  from env_var_setting_exact[OF a, where R = R and s = s]
  show "case handle_env_var_setting R command s of (res, s') \<Rightarrow>
           environment_vars s' = dict_set name val (environment_vars s)
           \<and> current_directory s' = current_directory s
           \<and> (\<exists>r rest.
                effects s' = effects s @
                  Sent (''cd '' @ quoted (current_directory s) @ '' && '' @ name @ ''='' @ val
                        @ '' && echo '' @ quoted (''Set '' @ name @ ''='' @ val)) r # rest
                \<and> (\<forall>c x. Sent c x \<notin> set rest)
                \<and> (case r of
                     Inl (Exception msg) \<Rightarrow>
                       rest = []
                       \<and> res = Inr (''Error setting environment variable: '' @ msg)
                       \<and> command_history s' = command_history s
                   | Inr command_id \<Rightarrow>
                       res = Inr (''Set environment variable '' @ name @ ''='' @ val)
                       \<and> command_history s' = command_history s @ [command]))"
    by (cases "handle_env_var_setting R command s") auto
qed

text \<open>
  Instances: \<^verbatim>\<open>FOO\<close> on the remote that cannot be reached, and \<^verbatim>\<open>FOO=\<close> on a remote
  that answers and on the one that cannot be reached.
\<close>

theorem env_var_setting_local_witness:
  "CHR ''='' \<notin> set ''FOO''
   \<and> handle_env_var_setting offline ''FOO'' (new_session ()) =
       (Inr ''Error setting environment variable: not enough values to unpack (expected 2, got 1)'',
        new_session ())
   \<and> effects (snd (handle_env_var_setting offline ''FOO'' (new_session ()))) = []
   \<and> classify ''FOO='' = VariableAssignment
   \<and> CHR ''='' \<in> set ''FOO=''
   \<and> strip ''FOO='' = ''FOO'' @ ''='' @ []
   \<and> (case handle_env_var_setting (answering []) ''FOO='' (new_session ()) of
        (res, s') \<Rightarrow>
          res = Inr ''Set environment variable FOO=''
          \<and> environment_vars s' = [(''FOO'', [])]
          \<and> command_history s' = [''FOO='']
          \<and> hd (effects s')
              = Sent (''cd '/home/ec2-user' && FOO= && echo '' @ quoted ''Set FOO='')
                  (Inr ''id-1''))
   \<and> (case handle_env_var_setting offline ''FOO='' (new_session ()) of
        (res, s') \<Rightarrow>
          res = Inr ''Error setting environment variable: connection refused''
          \<and> environment_vars s' = [(''FOO'', [])]
          \<and> command_history s' = []
          \<and> effects s'
              = [Sent (''cd '/home/ec2-user' && FOO= && echo '' @ quoted ''Set FOO='')
                   (Inl (Exception ''connection refused''))])"
proof -
  have e: "CHR ''='' \<notin> set ''FOO''
   \<and> handle_env_var_setting offline ''FOO'' (new_session ()) =
       (Inr ''Error setting environment variable: not enough values to unpack (expected 2, got 1)'',
        new_session ())
   \<and> effects (snd (handle_env_var_setting offline ''FOO'' (new_session ()))) = []
   \<and> classify ''FOO='' = VariableAssignment
   \<and> CHR ''='' \<in> set ''FOO=''
   \<and> strip ''FOO='' = ''FOO'' @ ''='' @ []
   \<and> (case handle_env_var_setting (answering []) ''FOO='' (new_session ()) of
        (res, s') \<Rightarrow>
          res = Inr ''Set environment variable FOO=''
          \<and> environment_vars s' = [(''FOO'', [])]
          \<and> command_history s' = [''FOO='']
          \<and> hd (effects s')
              = Sent (''cd '/home/ec2-user' && FOO= && echo '' @ quoted ''Set FOO='')
                  (Inr ''id-1''))
   \<and> (case handle_env_var_setting offline ''FOO='' (new_session ()) of
        (res, s') \<Rightarrow>
          res = Inr ''Error setting environment variable: connection refused''
          \<and> environment_vars s' = [(''FOO'', [])]
          \<and> command_history s' = []
          \<and> effects s'
              = [Sent (''cd '/home/ec2-user' && FOO= && echo '' @ quoted ''Set FOO='')
                   (Inl (Exception ''connection refused''))])"
    by code_simp
  from env_var_setting_local[where R = offline and command = "''FOO''"
         and s = "new_session ()" and name = "''FOO''" and val = "[]"]
       env_var_setting_local[where R = "answering []" and command = "''FOO=''"
         and s = "new_session ()" and name = "''FOO''" and val = "[]"]
       env_var_setting_local[where R = offline and command = "''FOO=''"
         and s = "new_session ()" and name = "''FOO''" and val = "[]"]
  show ?thesis by - (rule e)
qed

text \<open>
  The claim as it was stated fails at \<^verbatim>\<open>FOO=\<close>: the command is a VariableAssignment,
  its value is missing, and the result is the confirmation, with the variable set to
  the empty string and the command recorded.
\<close>

theorem empty_value_is_accepted:
  "classify ''FOO='' = VariableAssignment
   \<and> split_eq_1 ''FOO='' = [''FOO'', []]
   \<and> fst (dispatch (answering []) ''FOO='' (new_session ()))
       = Inr ''Set environment variable FOO=''
   \<and> environment_vars (snd (dispatch (answering []) ''FOO='' (new_session ())))
       = [(''FOO'', [])]
   \<and> command_history (snd (dispatch (answering []) ''FOO='' (new_session ())))
       = [''FOO='']"
  by code_simp

subsection \<open>C10: blank input\<close>

text \<open>
  Claim C10: on an input that consists only of whitespace and \<^verbatim>\<open>&&\<close> separators,
  \<open>execute_command\<close> returns the empty string and the session is as before: no
  field, no effect and nothing of the world has changed.
\<close>

theorem blank_input_no_effect:
  "blank_input command \<Longrightarrow> execute_command R command s = (Inr [], s)"
  by (simp add: execute_command_def source_commands_eq atomic_commands_Nil_iff[symmetric])

text \<open>
  An instance, on the remote that cannot be reached.
\<close>

theorem blank_input_no_effect_witness:
  "blank_input ''  && &&  '' \<and>
   execute_command offline ''  && &&  '' (new_session ()) = (Inr [], new_session ())"
proof -
  have h: "blank_input ''  && &&  ''" by (simp add: is_space_def)
  show ?thesis using h blank_input_no_effect[OF h, of offline "new_session ()"] by simp
qed

end
